theory Spec2Isabelle
  imports Main
begin

section \<open>Exceptions and the outside world\<close>

text \<open>
  The C++ sources throw exceptions; here an exception is a value. \<open>SystemCallError\<close> is what
  \<open>CheckSystemCall\<close> throws (tagged with the attempted call), \<open>RuntimeError\<close> is
  \<open>std::runtime_error\<close> with its message, and \<open>External\<close> stands for an exception raised
  inside a library the repository links against (pqxx, Crypto++, yaml-cpp, the process
  manager); all of them derive from \<open>std::exception\<close>. \<open>Abort\<close> is not an exception: the
  process is aborted (\<open>abort()\<close>, a failed \<open>assert\<close>) or its behaviour is undefined (signed
  overflow), and the model stops there.
\<close>

datatype exn =
    SystemCallError string
  | RuntimeError string
  | External string
  | Abort string

text \<open>
  What the program does to the outside that the properties talk about: a call of a
  multiplexer's \<open>deregister\<close> (multiplexer, descriptor handle), a \<open>::close\<close> system call, a
  warning written to \<open>cerr\<close> (text, number, text), and a \<open>print_exception\<close> call.
\<close>

datatype event =
    Deregister nat int
  | SysClose int
  | CerrWarning string int string
  | PrintException string exn

text \<open>
  The kernel object behind a handle. A \<open>Fifo\<close> is the reading end of a pipe whose writer
  has finished: it holds the bytes not yet read, reading the empty queue reports
  end-of-file, and it is not open for writing. A \<open>RegFile\<close> is a regular file open for
  reading and writing: it holds its contents and the current offset.
\<close>

datatype resource =
    Fifo string
  | RegFile string nat

text \<open>
  The world: the table of open handles, the transfer sizes the kernel will choose for the
  coming \<open>read\<close>/\<open>write\<close> calls (POSIX allows short counts; an exhausted plan means full
  transfers), the multiplexers that are still alive (whose \<open>weak_ptr\<close> can be locked), and
  the events so far.
\<close>

record world =
  fdtab :: "int \<rightharpoonup> resource"
  plan :: "nat list"
  live :: "nat list"
  trace :: "event list"

definition planned :: "nat list \<Rightarrow> nat \<Rightarrow> nat" where
  "planned p m = (case p of [] \<Rightarrow> m | c # _ \<Rightarrow> min c m)"

fun avail :: "resource \<Rightarrow> string" where
  "avail (Fifo q) = q"
| "avail (RegFile c off) = drop off c"

fun consume :: "nat \<Rightarrow> resource \<Rightarrow> resource" where
  "consume n (Fifo q) = Fifo (drop n q)"
| "consume n (RegFile c off) = RegFile c (off + n)"


definition lookup_fd :: "world \<Rightarrow> int \<Rightarrow> resource option" where
  "lookup_fd w fd = (if fd < 0 then None else fdtab w fd)"

text \<open>
  \<open>::read(fd, buffer, count)\<close>: \<open>-1\<close> on a handle that is not open; \<open>0\<close> when \<open>count\<close> is
  \<open>0\<close> or nothing is left; otherwise between \<open>1\<close> and \<open>min count available\<close> bytes, as the
  plan says.
\<close>

definition granted :: "nat list \<Rightarrow> nat \<Rightarrow> nat" where
  "granted p m = (if m = 0 then 0 else max 1 (planned p m))"

definition sys_read :: "world \<Rightarrow> int \<Rightarrow> nat \<Rightarrow> int \<times> string \<times> world" where
  "sys_read w fd count =
     (case lookup_fd w fd of
        None \<Rightarrow> (- 1, [], w)
      | Some r \<Rightarrow>
          (let n = granted (plan w) (min count (length (avail r)))
           in (int n, take n (avail r),
               w\<lparr>fdtab := (fdtab w)(fd \<mapsto> consume n r), plan := tl (plan w)\<rparr>)))"


definition SEEK_SET :: int where "SEEK_SET = 0"

definition SEEK_CUR :: int where "SEEK_CUR = 1"

definition SEEK_END :: int where "SEEK_END = 2"

definition SEEK_DATA :: int where "SEEK_DATA = 3"

definition SEEK_HOLE :: int where "SEEK_HOLE = 4"

text \<open>
  Where \<open>lseek\<close> is to go in a file with contents \<open>c\<close> at offset \<open>off\<close>. The file has no
  holes but the one at its end, so \<open>SEEK_DATA\<close> stays where it is asked to look and
  \<open>SEEK_HOLE\<close> goes to the end, both only from inside the file. \<open>None\<close> is an unknown
  \<open>whence\<close> or a place that does not exist.
\<close>

definition seek_target :: "string \<Rightarrow> nat \<Rightarrow> int \<Rightarrow> int \<Rightarrow> int option" where
  "seek_target c off offset whence =
     (if whence = SEEK_SET then Some offset
      else if whence = SEEK_CUR then Some (int off + offset)
      else if whence = SEEK_END then Some (int (length c) + offset)
      else if whence = SEEK_DATA then
        (if 0 \<le> offset \<and> offset < int (length c) then Some offset else None)
      else if whence = SEEK_HOLE then
        (if 0 \<le> offset \<and> offset < int (length c) then Some (int (length c)) else None)
      else None)"

text \<open>
  \<open>lseek(fd, offset, whence)\<close>: \<open>-1\<close> on a handle that is not open, on a \<open>Fifo\<close>, when
  there is no place to go, and when the resulting offset would be negative or beyond
  \<open>off_t\<close>.
\<close>

definition sys_lseek :: "world \<Rightarrow> int \<Rightarrow> int \<Rightarrow> int \<Rightarrow> int \<times> world" where
  "sys_lseek w fd offset whence =
     (case lookup_fd w fd of
        None \<Rightarrow> (- 1, w)
      | Some (Fifo q) \<Rightarrow> (- 1, w)
      | Some (RegFile c off) \<Rightarrow>
          (case seek_target c off offset whence of
             None \<Rightarrow> (- 1, w)
           | Some new \<Rightarrow>
               if new < 0 \<or> 2 ^ 63 \<le> new then (- 1, w)
               else (new, w\<lparr>fdtab := (fdtab w)(fd \<mapsto> RegFile c (nat new))\<rparr>)))"

text \<open>\<open>::close(fd)\<close>: the call is recorded; \<open>-1\<close> on a handle that is not open.\<close>

definition sys_close :: "world \<Rightarrow> int \<Rightarrow> int \<times> world" where
  "sys_close w fd =
     (case lookup_fd w fd of
        None \<Rightarrow> (- 1, w\<lparr>trace := trace w @ [SysClose fd]\<rparr>)
      | Some r \<Rightarrow> (0, w\<lparr>fdtab := (fdtab w)(fd := None), trace := trace w @ [SysClose fd]\<rparr>))"

text \<open>
  Modelled from the spec: \<open>CheckSystemCall\<close> is declared in \<open>exception.hh\<close>, which is not
  among the sources. The spec's error taxonomy has \<open>SystemCallError\<close> for "an OS-level call
  failed"; a system call fails by returning a negative value.
\<close>

definition CheckSystemCall :: "string \<Rightarrow> int \<Rightarrow> exn + int" where
  "CheckSystemCall s_attempt return_value =
     (if 0 \<le> return_value then Inr return_value else Inl (SystemCallError s_attempt))"

section \<open>FileDescriptor\<close>

text \<open>
  The members initialised by the constructors of \<open>file_descriptor.cc\<close>: \<open>fd_\<close>, \<open>eof_\<close>,
  \<open>read_count_\<close>, \<open>write_count_\<close> and \<open>epollers_\<close>, named here as their accessors are (a
  name cannot end in an underscore). \<open>epollers\<close> maps a multiplexer's own handle to a weak
  reference to it, a multiplexer being known by a number; the map is kept as an association
  list in iteration order, with at most one entry for a key.
\<close>

record FileDescriptor =
  fd_num :: int
  eof :: bool
  read_count :: nat
  write_count :: nat
  epollers :: "(int \<times> nat) list"

type_synonym 'a outcome = "(exn + 'a) \<times> FileDescriptor \<times> world"

text \<open>
  Modelled from the spec: \<open>set_eof\<close>, \<open>register_read\<close> and \<open>register_write\<close> are defined in
  \<open>file_descriptor.hh\<close>, which is not among the sources. They take no byte count; the spec
  has \<open>read\<close> set end-of-file and update the read counter.
\<close>

definition set_eof :: "bool \<Rightarrow> FileDescriptor \<Rightarrow> FileDescriptor" where
  "set_eof b d = d\<lparr>eof := b\<rparr>"

definition register_read :: "FileDescriptor \<Rightarrow> FileDescriptor" where
  "register_read d = d\<lparr>read_count := read_count d + 1\<rparr>"


text \<open>
  Modelled from the spec: \<open>Epoller::deregister\<close> is external (\<open>epoller.hh\<close>); the spec gives
  its contract only, "asks the multiplexer to stop watching", idempotent and never an error.
  The call is recorded in the trace.
\<close>

definition deregister :: "nat \<Rightarrow> FileDescriptor \<Rightarrow> world \<Rightarrow> world" where
  "deregister e d w = w\<lparr>trace := trace w @ [Deregister e (fd_num d)]\<rparr>"

text \<open>The loop of \<open>close\<close> over \<open>epollers\<close>: lock the weak reference, deregister if alive.\<close>

fun notify_epollers :: "(int \<times> nat) list \<Rightarrow> FileDescriptor \<Rightarrow> world \<Rightarrow> world" where
  "notify_epollers [] d w = w"
| "notify_epollers (epoller_item # rest) d w =
     notify_epollers rest d
       (if snd epoller_item \<in> set (live w) then deregister (snd epoller_item) d w else w)"

definition close :: "FileDescriptor \<Rightarrow> world \<Rightarrow> unit outcome" where
  "close d w =
     (if fd_num d < 0 then (Inr (), d, w)
      else
        (let w1 = notify_epollers (epollers d) d w;
             (r, w2) = sys_close w1 (fd_num d)
         in case CheckSystemCall ''close'' r of
              Inl e \<Rightarrow> (Inl e, d, w2)
            | Inr _ \<Rightarrow> (Inr (), d\<lparr>fd_num := - 1\<rparr>, w2)))"

text \<open>The destructor: \<open>close\<close>, with any exception caught and printed. The object is gone.\<close>

definition destructor :: "FileDescriptor \<Rightarrow> world \<Rightarrow> world" where
  "destructor d w =
     (case close d w of
        (Inl e, d', w') \<Rightarrow> w'\<lparr>trace := trace w' @ [PrintException ''FileDescriptor'' e]\<rparr>
      | (Inr _, d', w') \<Rightarrow> w')"


text \<open>
  \<open>read(limit)\<close>. \<open>BUFFER_SIZE\<close> is a constant of \<open>file_descriptor.hh\<close>, which is not among the
  sources; it is a parameter here.
\<close>

definition read :: "nat \<Rightarrow> FileDescriptor \<Rightarrow> world \<Rightarrow> nat \<Rightarrow> string outcome" where
  "read BUFFER_SIZE d w limit =
     (let (r, buffer, w') = sys_read w (fd_num d) (min BUFFER_SIZE limit)
      in case CheckSystemCall ''read'' r of
           Inl e \<Rightarrow> (Inl e, d, w')
         | Inr bytes_read \<Rightarrow>
             (let d1 = (if bytes_read = 0 then set_eof True d else d);
                  d2 = register_read d1
              in (Inr (take (nat bytes_read) buffer), d2, w')))"



text \<open>
  \<open>read_exactly(length, fail_silently)\<close>: the \<open>while\<close> loop with its accumulator \<open>ret\<close>, then the
  \<open>assert\<close>.
\<close>

function read_exactly_loop ::
  "nat \<Rightarrow> FileDescriptor \<Rightarrow> world \<Rightarrow> nat \<Rightarrow> bool \<Rightarrow> string \<Rightarrow> string outcome" where
  "read_exactly_loop BUFFER_SIZE d w len fail_silently ret =
     (if length ret < len then
        (case read BUFFER_SIZE d w (len - length ret) of
           (Inl e, d', w') \<Rightarrow> (Inl e, d', w')
         | (Inr s, d', w') \<Rightarrow>
             if eof d' then
               (if fail_silently then (Inr (ret @ s), d', w')
                else (Inl (RuntimeError ''read_exactly: reached EOF before reaching target''),
                      d', w'))
             else read_exactly_loop BUFFER_SIZE d' w' len fail_silently (ret @ s))
      else if length ret = len then (Inr ret, d, w)
      else (Inl (Abort ''ret.size() == length''), d, w))"
  by pat_completeness auto

termination
proof -
  have grows: "len - length (ret @ s) < len - length ret"
    if "(Inr s, d', w') = read BUFFER_SIZE d w (len - length ret)"
      and "\<not> eof d'" and "length ret < len"
    for BUFFER_SIZE d w len ret s d' w'
  proof (cases "lookup_fd w (fd_num d)")
    case None
    with that(1) show ?thesis
      by (simp add: read_def sys_read_def CheckSystemCall_def)
  next
    case (Some r)
    define n where
      "n = granted (plan w) (min (min BUFFER_SIZE (len - length ret)) (length (avail r)))"
    have "n \<le> length (avail r)"
      by (auto simp: n_def granted_def planned_def Suc_le_eq split: list.splits)
    moreover from that(1) Some have "s = take n (avail r)"
      and "d' = register_read (if n = 0 then set_eof True d else d)"
      by (simp_all add: read_def sys_read_def CheckSystemCall_def Let_def n_def)
    ultimately have "s \<noteq> []"
      using that(2) by (auto simp: register_read_def set_eof_def split: if_splits)
    with that(3) show ?thesis by (cases s) auto
  qed
  show ?thesis
    apply (relation "measure (\<lambda>(BUFFER_SIZE, d, w, len, fail_silently, ret). len - length ret)")
     apply simp
    apply (auto dest: grows)
    done
qed

definition read_exactly :: "nat \<Rightarrow> FileDescriptor \<Rightarrow> world \<Rightarrow> nat \<Rightarrow> bool \<Rightarrow> string outcome" where
  "read_exactly BUFFER_SIZE d w len fail_silently =
     read_exactly_loop BUFFER_SIZE d w len fail_silently []"

text \<open>
  Offsets: \<open>seek\<close> takes an \<open>int64_t\<close> and returns a \<open>uint64_t\<close>; the conversions are written
  out.
\<close>

definition to_uint64 :: "int \<Rightarrow> int" where
  "to_uint64 x = x mod 2 ^ 64"

definition to_int64 :: "int \<Rightarrow> int" where
  "to_int64 x = (x + 2 ^ 63) mod 2 ^ 64 - 2 ^ 63"

definition seek :: "FileDescriptor \<Rightarrow> world \<Rightarrow> int \<Rightarrow> int \<Rightarrow> int outcome" where
  "seek d w offset whence =
     (let (r, w') = sys_lseek w (fd_num d) offset whence
      in case CheckSystemCall ''lseek'' r of
           Inl e \<Rightarrow> (Inl e, d, w')
         | Inr v \<Rightarrow> (Inr (to_uint64 v), d, w'))"

definition curr_offset :: "FileDescriptor \<Rightarrow> world \<Rightarrow> int outcome" where
  "curr_offset d w = seek d w 0 SEEK_CUR"

definition inc_offset :: "FileDescriptor \<Rightarrow> world \<Rightarrow> int \<Rightarrow> int outcome" where
  "inc_offset d w offset = seek d w offset SEEK_CUR"

definition filesize :: "FileDescriptor \<Rightarrow> world \<Rightarrow> int outcome" where
  "filesize d w =
     (case curr_offset d w of
        (Inl e, d1, w1) \<Rightarrow> (Inl e, d1, w1)
      | (Inr prev_offset, d1, w1) \<Rightarrow>
          (case seek d1 w1 0 SEEK_END of
             (Inl e, d2, w2) \<Rightarrow> (Inl e, d2, w2)
           | (Inr fsize, d2, w2) \<Rightarrow>
               (case seek d2 w2 (to_int64 prev_offset) SEEK_SET of
                  (Inl e, d3, w3) \<Rightarrow> (Inl e, d3, w3)
                | (Inr _, d3, w3) \<Rightarrow> (Inr fsize, d3, w3))))"


text \<open>
  \<open>detach_epoller(epoller_fd)\<close>: \<open>erase\<close> removes the entry of that key and returns how many
  entries it removed.
\<close>

definition detach_epoller :: "FileDescriptor \<Rightarrow> world \<Rightarrow> int \<Rightarrow> FileDescriptor \<times> world" where
  "detach_epoller d w epoller_fd =
     (let erased = length (filter (\<lambda>item. fst item = epoller_fd) (epollers d));
          d' = d\<lparr>epollers := filter (\<lambda>item. fst item \<noteq> epoller_fd) (epollers d)\<rparr>
      in if erased = 0
         then (d', w\<lparr>trace := trace w @
                 [CerrWarning ''Warning: failed to detach a non-existent epoller '' epoller_fd
                    '' from FileDescriptor'']\<rparr>)
         else (d', w))"

section \<open>run\_servers\<close>

text \<open>
  \<open>std::to_string\<close> of an \<open>int\<close>: a minus sign for a negative value, then the decimal
  digits.
\<close>

definition digit_char :: "nat \<Rightarrow> char" where
  "digit_char n = ''0123456789'' ! n"

fun digits :: "nat \<Rightarrow> string" where
  "digits n = (if n < 10 then [digit_char n] else digits (n div 10) @ [digit_char (n mod 10)])"

definition to_string :: "int \<Rightarrow> string" where
  "to_string i = (if i < 0 then CHR ''-'' # digits (nat (- i)) else digits (nat i))"

text \<open>
  \<open>fs::path\<close>'s \<open>operator/\<close> with a relative right-hand side: a separator is put between
  the two unless the left-hand side is empty or already ends in one.
\<close>

definition path_join :: "string \<Rightarrow> string \<Rightarrow> string" where
  "path_join a b = (if a = [] \<or> last a = CHR ''/'' then a @ b else a @ ''/'' @ b)"

text \<open>
  The configuration, as the YAML accessors of \<open>main\<close> read it: \<open>enable_logging\<close> as
  \<open>bool\<close>, \<open>log_dir\<close> as string, and for every experiment its fingerprint streamed to a
  string and \<open>num_servers\<close> as \<open>unsigned int\<close>. A document in which an accessor would throw
  is outside this type.
\<close>

record expt_node =
  fingerprint :: string
  num_servers :: nat

record config =
  enable_logging :: bool
  log_dir :: string
  experiments :: "expt_node list"

text \<open>
  What the database answers during one call of \<open>retrieve_expt_id\<close>. Every step is a call
  into pqxx or Crypto++ and may throw; a result is a list of rows, a row a list of fields,
  and a field is what \<open>as<int>()\<close> makes of it.
\<close>

type_synonym pq_result = "(exn + int) list list"

record db_session =
  hash_filter :: "string \<Rightarrow> exn + string"
  connect :: "exn option"
  create_table :: "exn option"
  prepare :: "exn option"
  select_id :: "string \<Rightarrow> exn + pq_result"
  insert_json :: "string \<Rightarrow> string \<Rightarrow> exn + pq_result"
  commit :: "exn option"

definition sha256 :: "db_session \<Rightarrow> string \<Rightarrow> exn + string" where
  "sha256 db input = hash_filter db input"

text \<open>
  The \<open>try\<close> block of \<open>retrieve_expt_id\<close>: \<open>Inl\<close> an exception thrown inside it,
  \<open>Inr (Some id)\<close> a \<open>return\<close> inside it, \<open>Inr None\<close> when control falls out of it.
\<close>

definition single_field :: "pq_result \<Rightarrow> bool" where
  "single_field r \<longleftrightarrow> length r = 1 \<and> length (r ! 0) = 1"

definition retrieve_try :: "db_session \<Rightarrow> string \<Rightarrow> exn + int option" where
  "retrieve_try db json_str =
     (case sha256 db json_str of
        Inl e \<Rightarrow> Inl e
      | Inr hash \<Rightarrow>
          (case connect db of
             Some e \<Rightarrow> Inl e
           | None \<Rightarrow>
               (case create_table db of
                  Some e \<Rightarrow> Inl e
                | None \<Rightarrow>
                    (case prepare db of
                       Some e \<Rightarrow> Inl e
                     | None \<Rightarrow>
                         (case select_id db hash of
                            Inl e \<Rightarrow> Inl e
                          | Inr r \<Rightarrow>
                              if single_field r then
                                (case r ! 0 ! 0 of Inl e \<Rightarrow> Inl e | Inr v \<Rightarrow> Inr (Some v))
                              else
                                (case insert_json db hash json_str of
                                   Inl e \<Rightarrow> Inl e
                                 | Inr r \<Rightarrow>
                                     (case commit db of
                                        Some e \<Rightarrow> Inl e
                                      | None \<Rightarrow>
                                          if single_field r then
                                            (case r ! 0 ! 0 of
                                               Inl e \<Rightarrow> Inl e
                                             | Inr v \<Rightarrow> Inr (Some v))
                                          else Inr None)))))))"

text \<open>
  \<open>retrieve_expt_id\<close>: the \<open>catch\<close> clause prints the exception; every path that did not
  return inside the \<open>try\<close> block returns \<open>-1\<close>. The result comes with the
  \<open>print_exception\<close> calls made.
\<close>

definition retrieve_expt_id :: "db_session \<Rightarrow> string \<Rightarrow> int \<times> event list" where
  "retrieve_expt_id db json_str =
     (case retrieve_try db json_str of
        Inl e \<Rightarrow> (- 1, [PrintException ''retrieve_expt_id'' e])
      | Inr (Some v) \<Rightarrow> (v, [])
      | Inr None \<Rightarrow> (- 1, []))"

text \<open>
  The collaborators of \<open>main\<close>: the file system, the YAML loader, the telemetry client's
  constructor, \<open>run\<close> (the output of a program), the database (its answers during the
  \<open>n\<close>-th identity lookup), process creation, and what \<open>ProcessManager::wait\<close> returns.
\<close>

record env =
  fs_absolute :: "string \<Rightarrow> string"
  load_file :: "string \<Rightarrow> exn + config"
  exe_src_path :: string
  influx_connect :: "exn option"
  run_program :: "string \<Rightarrow> string list \<Rightarrow> exn + string"
  database :: "nat \<Rightarrow> db_session"
  spawnable :: "string \<Rightarrow> bool"
  wait_status :: int

text \<open>The globals of \<open>run_servers.cc\<close>.\<close>

record globals =
  yaml_config :: string
  config :: config
  src_path :: string

text \<open>
  Modelled from the spec: \<open>ProcessManager\<close> is declared in \<open>child_process.hh\<close>, which is not
  among the sources. By the spec, \<open>runAsChild\<close> creates the process and records it, or
  fails synchronously with \<open>SpawnError\<close> when the process cannot be created. A tracked
  child is kept with its program, its arguments and its error callback.
\<close>

datatype callback =
    MediaServerError int
  | LogReporterError string

record child =
  program :: string
  arguments :: "string list"
  on_error :: callback

record orchestrator =
  server_id :: int
  proc_manager :: "child list"
  printed :: "event list"

definition run_as_child ::
  "env \<Rightarrow> string \<Rightarrow> string list \<Rightarrow> callback \<Rightarrow> orchestrator \<Rightarrow> (exn + unit) \<times> orchestrator" where
  "run_as_child env file_to_run args error_callback st =
     (if spawnable env file_to_run
      then (Inr (), st\<lparr>proc_manager := proc_manager st @
              [\<lparr>program = file_to_run, arguments = args, on_error = error_callback\<rparr>]\<rparr>)
      else (Inl (External ''SpawnError''), st))"

definition log_stems :: "string list" where
  "log_stems = [''active_streams'', ''rebuffer_events'', ''client_buffer'', ''client_sysinfo'',
     ''video_sent'', ''video_acked'']"

definition log_reporter :: "globals \<Rightarrow> string" where
  "log_reporter g = path_join (src_path g) ''monitoring/log_reporter''"

definition expt_json :: "globals \<Rightarrow> string" where
  "expt_json g = path_join (src_path g) ''scripts/expt_json.py''"

definition ws_media_server :: "globals \<Rightarrow> string" where
  "ws_media_server g = path_join (src_path g) ''media-server/ws_media_server''"

text \<open>The loop over \<open>log_stems\<close> that runs the log reporters of one server.\<close>

fun run_log_reporters ::
  "env \<Rightarrow> globals \<Rightarrow> string list \<Rightarrow> orchestrator \<Rightarrow> (exn + unit) \<times> orchestrator" where
  "run_log_reporters env g [] st = (Inr (), st)"
| "run_log_reporters env g (log_stem # rest) st =
     (let log_format = path_join (log_dir (config g)) (log_stem @ ''.conf'');
          log_path = path_join (log_dir (config g))
            (log_stem @ ''.'' @ to_string (server_id st) @ ''.log'');
          log_args = [log_reporter g, yaml_config g, log_format, log_path]
      in case run_as_child env (log_reporter g) log_args (LogReporterError log_stem) st of
           (Inl e, st') \<Rightarrow> (Inl e, st')
         | (Inr _, st') \<Rightarrow> run_log_reporters env g rest st')"

text \<open>
  The loop \<open>for (i = 0; i < num_servers; i++)\<close>, by the number of iterations left.
  \<open>server_id\<close> is an \<open>int\<close>: incrementing \<open>INT_MAX\<close> is undefined, and the model stops there.
\<close>

fun run_media_servers ::
  "env \<Rightarrow> globals \<Rightarrow> bool \<Rightarrow> int \<Rightarrow> nat \<Rightarrow> orchestrator \<Rightarrow> (exn + unit) \<times> orchestrator" where
  "run_media_servers env g influxdb_client expt_id 0 st = (Inr (), st)"
| "run_media_servers env g influxdb_client expt_id (Suc left) st =
     (if server_id st = 2147483647 then (Inl (Abort ''server_id++''), st)
      else
        (let st1 = st\<lparr>server_id := server_id st + 1\<rparr>;
             args = [ws_media_server g, yaml_config g,
                     to_string (server_id st1), to_string expt_id]
         in case run_as_child env (ws_media_server g) args
                   (MediaServerError (server_id st1)) st1 of
              (Inl e, st2) \<Rightarrow> (Inl e, st2)
            | (Inr _, st2) \<Rightarrow>
                (case (if influxdb_client then run_log_reporters env g log_stems st2
                       else (Inr (), st2)) of
                   (Inl e, st3) \<Rightarrow> (Inl e, st3)
                 | (Inr _, st3) \<Rightarrow>
                     run_media_servers env g influxdb_client expt_id left st3)))"

text \<open>
  The loop over \<open>config["experiments"]\<close>; \<open>k\<close> counts the calls of \<open>retrieve_expt_id\<close> made
  so far.
\<close>

fun run_experiments ::
  "env \<Rightarrow> globals \<Rightarrow> bool \<Rightarrow> expt_node list \<Rightarrow> nat \<Rightarrow> orchestrator \<Rightarrow>
     (exn + unit) \<times> orchestrator" where
  "run_experiments env g influxdb_client [] k st = (Inr (), st)"
| "run_experiments env g influxdb_client (expt # rest) k st =
     (case run_program env (expt_json g) [expt_json g, fingerprint expt] of
        Inl e \<Rightarrow> (Inl e, st)
      | Inr json_str \<Rightarrow>
          (let (expt_id, msgs) = retrieve_expt_id (database env k) json_str;
               st1 = st\<lparr>printed := printed st @ msgs\<rparr>
           in case run_media_servers env g influxdb_client expt_id (num_servers expt) st1 of
                (Inl e, st2) \<Rightarrow> (Inl e, st2)
              | (Inr _, st2) \<Rightarrow> run_experiments env g influxdb_client rest (Suc k) st2))"

definition EXIT_FAILURE :: int where
  "EXIT_FAILURE = 1"

definition initial :: orchestrator where
  "initial = \<lparr>server_id = 0, proc_manager = [], printed = []\<rparr>"

text \<open>
  \<open>main\<close>, with \<open>argv\<close> as a list. An exception that leaves \<open>main\<close> ends the process; the
  state reached is kept, so that the children spawned until then can be inspected. Output
  to \<open>cerr\<close> and the telemetry posts before \<open>wait\<close> are left out: they change nothing that
  is modelled.
\<close>

definition main :: "env \<Rightarrow> string list \<Rightarrow> (exn + int) \<times> orchestrator" where
  "main env argv =
     (if length argv < 1 then (Inl (Abort ''abort''), initial)
      else if length argv \<noteq> 2 then (Inr EXIT_FAILURE, initial)
      else
        (case load_file env (fs_absolute env (argv ! 1)) of
           Inl e \<Rightarrow> (Inl e, initial)
         | Inr cfg \<Rightarrow>
             (let g = \<lparr>yaml_config = fs_absolute env (argv ! 1), config = cfg,
                       src_path = exe_src_path env\<rparr>
              in case (if enable_logging cfg then influx_connect env else None) of
                   Some e \<Rightarrow> (Inl e, initial)
                 | None \<Rightarrow>
                     (case run_experiments env g (enable_logging cfg) (experiments cfg) 0 initial of
                        (Inl e, st) \<Rightarrow> (Inl e, st)
                      | (Inr _, st) \<Rightarrow> (Inr (wait_status env), st)))))"

section \<open>Notions used in the properties\<close>



text \<open>
  The \<open>deregister\<close> calls that \<open>close\<close> owes: one for every entry whose multiplexer is
  alive.
\<close>

definition deregistrations ::
  "(int \<times> nat) list \<Rightarrow> FileDescriptor \<Rightarrow> world \<Rightarrow> event list" where
  "deregistrations items d w =
     map (\<lambda>e. Deregister e (fd_num d)) (filter (\<lambda>e. e \<in> set (live w)) (map snd items))"

text \<open>
  For the properties: the media servers among the children, the argument vector of the
  \<open>n\<close>-th of them, and the experiment ids that the identity lookups of a run return.
\<close>

definition media_servers :: "globals \<Rightarrow> orchestrator \<Rightarrow> child list" where
  "media_servers g st = filter (\<lambda>c. program c = ws_media_server g) (proc_manager st)"

definition media_args :: "globals \<Rightarrow> nat \<times> int \<Rightarrow> string list" where
  "media_args g p =
     [ws_media_server g, yaml_config g, to_string (int (fst p)), to_string (snd p)]"

fun lookups :: "env \<Rightarrow> globals \<Rightarrow> expt_node list \<Rightarrow> nat \<Rightarrow> int list" where
  "lookups env g [] k = []"
| "lookups env g (expt # rest) k =
     (case run_program env (expt_json g) [expt_json g, fingerprint expt] of
        Inl e \<Rightarrow> []
      | Inr json_str \<Rightarrow>
          fst (retrieve_expt_id (database env k) json_str) # lookups env g rest (Suc k))"

text \<open>
  The experiment ids of the media servers of a run, in spawn order: for every experiment,
  as long as its JSON can be produced, as many copies of what \<open>retrieve_expt_id\<close> returned
  for it as it has servers.
\<close>

definition worker_ids :: "env \<Rightarrow> globals \<Rightarrow> expt_node list \<Rightarrow> nat \<Rightarrow> int list" where
  "worker_ids env g expts k =
     concat (map (\<lambda>(expt, expt_id). replicate (num_servers expt) expt_id)
       (zip expts (lookups env g expts k)))"

section \<open>Sample states\<close>

text \<open>
  A descriptor on handle 3, attached to the multiplexers 10 (under key 5) and 11 (under key
  7), both alive; behind the handle a stream with two bytes pending, and a kernel that will
  transfer one byte in the next call. \<open>sample_new_file_world\<close> has a new, empty file behind
  the handle and a kernel that transfers at most two bytes in the next call;
  \<open>written_fd\<close> and \<open>written_world\<close> are the descriptor and the world after the three
  bytes \<open>abc\<close> were written to it;
  \<open>sample_file_world\<close> has a file of five bytes at offset 2. In \<open>sample_gone_world\<close>
  the handle is no longer open in the kernel, though the descriptor still holds it;
  \<open>closed_fd\<close> and \<open>closed_world\<close> are the descriptor and the world after \<open>close()\<close> on the
  sample descriptor. \<open>stale_fd\<close> and
  \<open>stale_world\<close> are the descriptor and the world after \<open>read(0)\<close> on the sample
  descriptor, with a kernel that transfers one byte per call.
\<close>

definition sample_fd :: FileDescriptor where
  "sample_fd =
     \<lparr>fd_num = 3, eof = False, read_count = 0, write_count = 0, epollers = [(5, 10), (7, 11)]\<rparr>"

definition sample_world :: world where
  "sample_world = \<lparr>fdtab = [3 \<mapsto> Fifo ''ab''], plan = [1], live = [10, 11], trace = []\<rparr>"




definition sample_stale_world :: world where
  "sample_stale_world = sample_world\<lparr>plan := [1, 1]\<rparr>"

definition stale_fd :: FileDescriptor where
  "stale_fd = fst (snd (read 1024 sample_fd sample_stale_world 0))"

definition stale_world :: world where
  "stale_world = snd (snd (read 1024 sample_fd sample_stale_world 0))"

definition sample_gone_world :: world where
  "sample_gone_world = sample_world\<lparr>fdtab := Map.empty\<rparr>"



definition sample_file_world :: world where
  "sample_file_world =
     \<lparr>fdtab = [3 \<mapsto> RegFile ''hello'' 2], plan = [], live = [], trace = []\<rparr>"

text \<open>
  A configuration with one experiment of two servers and logging disabled; a database in
  which the experiment is already stored under id 7; and variants in which the database
  cannot be connected to, and in which logging is enabled.
\<close>

definition sample_db :: db_session where
  "sample_db =
     \<lparr>hash_filter = (\<lambda>input. Inr ''5F''), connect = None, create_table = None, prepare = None,
      select_id = (\<lambda>hash. Inr [[Inr 7]]), insert_json = (\<lambda>hash data. Inr [[Inr 8]]),
      commit = None\<rparr>"

definition sample_config :: config where
  "sample_config =
     \<lparr>enable_logging = False, log_dir = ''/log'',
      experiments = [\<lparr>fingerprint = ''abr: linear_bba'', num_servers = 2\<rparr>]\<rparr>"

definition sample_env :: env where
  "sample_env =
     \<lparr>fs_absolute = (\<lambda>p. ''/etc/'' @ p), load_file = (\<lambda>p. Inr sample_config),
      exe_src_path = ''/puffer/src'', influx_connect = None,
      run_program = (\<lambda>p args. Inr ''{}''), database = (\<lambda>k. sample_db),
      spawnable = (\<lambda>p. True), wait_status = 0\<rparr>"

definition sample_argv :: "string list" where
  "sample_argv = [''run_servers'', ''cfg.yml'']"

definition sample_globals :: globals where
  "sample_globals = \<lparr>yaml_config = ''/etc/cfg.yml'', config = sample_config,
     src_path = ''/puffer/src''\<rparr>"

definition sample_db_down :: db_session where
  "sample_db_down = sample_db\<lparr>connect := Some (External ''broken_connection'')\<rparr>"

definition sample_env_db_down :: env where
  "sample_env_db_down = sample_env\<lparr>database := (\<lambda>k. sample_db_down)\<rparr>"


section \<open>Properties of FileDescriptor\<close>

lemma granted_le: "granted p m \<le> m"
  by (auto simp: granted_def planned_def split: list.splits)

lemma granted_zero: "granted p m = 0 \<longleftrightarrow> m = 0"
  by (auto simp: granted_def)

lemma read_open:
  assumes "lookup_fd w (fd_num d) = Some r"
    and "n = granted (plan w) (min (min BUFFER_SIZE limit) (length (avail r)))"
  shows "read BUFFER_SIZE d w limit =
        (Inr (take n (avail r)),
         (if n = 0 then set_eof True d else d)\<lparr>read_count := read_count d + 1\<rparr>,
         w\<lparr>fdtab := (fdtab w)(fd_num d \<mapsto> consume n r), plan := tl (plan w)\<rparr>)"
  using assms
  by (simp add: read_def sys_read_def CheckSystemCall_def register_read_def set_eof_def Let_def)

lemma read_result:
  assumes "read BUFFER_SIZE d w limit = (Inr s, d', w')"
  shows "length s \<le> limit \<and> fd_num d' = fd_num d \<and> epollers d' = epollers d
    \<and> (eof d' \<longleftrightarrow> eof d \<or> s = [])"
proof (cases "lookup_fd w (fd_num d)")
  case None
  with assms show ?thesis
    by (simp add: read_def sys_read_def CheckSystemCall_def)
next
  case (Some r)
  define n where "n = granted (plan w) (min (min BUFFER_SIZE limit) (length (avail r)))"
  have "n \<le> min (min BUFFER_SIZE limit) (length (avail r))"
    unfolding n_def by (rule granted_le)
  then have len: "length (take n (avail r)) = n" "n \<le> limit"
    by simp_all
  from assms read_open [OF Some n_def] have s: "s = take n (avail r)"
    and d': "d' = (if n = 0 then set_eof True d else d)\<lparr>read_count := read_count d + 1\<rparr>"
    by simp_all
  from len s have "length s = n" by simp
  with len d' show ?thesis
    by (auto simp: set_eof_def)
qed

lemma avail_consume: "avail (consume n r) = drop n (avail r)"
  by (cases r) (simp_all add: add.commute)

lemma lookup_fd_nonneg: "lookup_fd w fd = Some r \<Longrightarrow> 0 \<le> fd"
  by (auto simp: lookup_fd_def split: if_splits)

lemma lookup_fd_update:
  "0 \<le> fd \<Longrightarrow> lookup_fd (w\<lparr>fdtab := (fdtab w)(fd \<mapsto> r), plan := p\<rparr>) fd = Some r"
  by (simp add: lookup_fd_def)


lemma fdtab_same:
  assumes "lookup_fd w fd = Some r"
  shows "(fdtab w)(fd \<mapsto> r) = fdtab w"
  using assms by (auto simp: lookup_fd_def split: if_splits)




text \<open>
  C3, as the code has it: \<open>detach_epoller(k)\<close> on a descriptor attached under key \<open>k\<close> erases
  the entry of \<open>k\<close> from the back-reference map and does nothing else: the descriptor's other
  members and the world are unchanged, so no \<open>deregister\<close> is called.
\<close>

theorem detach_epoller_only_forgets:
  assumes "map_of (epollers d) k = Some e"
  shows "detach_epoller d w k =
      (d\<lparr>epollers := filter (\<lambda>item. fst item \<noteq> k) (epollers d)\<rparr>, w)
    \<and> map_of (filter (\<lambda>item. fst item \<noteq> k) (epollers d)) k = None"
proof -
  from assms have "(k, e) \<in> set (epollers d)"
    by (rule map_of_SomeD)
  then have "filter (\<lambda>item. fst item = k) (epollers d) \<noteq> []"
    by (force simp: filter_empty_conv)
  moreover have "map_of (filter (\<lambda>item. fst item \<noteq> k) (epollers d)) k = None"
    by (auto simp: map_of_eq_None_iff)
  ultimately show ?thesis
    by (simp add: detach_epoller_def Let_def)
qed

theorem detach_epoller_only_forgets_witness:
  "map_of (epollers sample_fd) 5 = Some 10
   \<and> detach_epoller sample_fd sample_world 5 = (sample_fd\<lparr>epollers := [(7, 11)]\<rparr>, sample_world)"
proof -
  have att: "map_of (epollers sample_fd) 5 = Some 10"
    by (simp add: sample_fd_def)
  from detach_epoller_only_forgets [OF att, of sample_world] att show ?thesis
    by (simp add: sample_fd_def)
qed

text \<open>
  C3, as the claim states it, fails: the sample descriptor is attached to the live
  multiplexer 10 under key 5, and after \<open>detach_epoller(5)\<close> no \<open>deregister\<close> call of
  multiplexer 10 has been made.
\<close>

theorem detach_epoller_no_deregister:
  "map_of (epollers sample_fd) 5 = Some 10
   \<and> 10 \<in> set (live sample_world)
   \<and> map_of (epollers (fst (detach_epoller sample_fd sample_world 5))) 5 = None
   \<and> Deregister 10 3 \<notin> set (trace (snd (detach_epoller sample_fd sample_world 5)))"
  by (simp add: detach_epoller_def sample_fd_def sample_world_def)

text \<open>
  C5, as the code has it: after a \<open>close()\<close> that returned, a second \<open>close()\<close> returns
  without an exception and leaves the descriptor and the world as they were: no
  \<open>deregister\<close>, no \<open>::close\<close>.
\<close>

theorem close_idempotent:
  assumes "close d w = (Inr u, d', w')"
  shows "close d' w' = (Inr (), d', w') \<and> fd_num d' < 0"
proof (cases "fd_num d < 0")
  case True
  with assms show ?thesis by (auto simp: close_def)
next
  case False
  obtain r w2 where sc: "sys_close (notify_epollers (epollers d) d w) (fd_num d) = (r, w2)"
    by (cases "sys_close (notify_epollers (epollers d) d w) (fd_num d)")
  with assms False have "d' = d\<lparr>fd_num := - 1\<rparr>"
    by (auto simp: close_def Let_def CheckSystemCall_def split: if_splits)
  then show ?thesis by (simp add: close_def)
qed

theorem close_idempotent_witness:
  "close sample_fd sample_world =
     (Inr (), sample_fd\<lparr>fd_num := - 1\<rparr>,
      sample_world\<lparr>fdtab := Map.empty, trace := [Deregister 10 3, Deregister 11 3, SysClose 3]\<rparr>)
   \<and> close (sample_fd\<lparr>fd_num := - 1\<rparr>)
       (sample_world\<lparr>fdtab := Map.empty, trace := [Deregister 10 3, Deregister 11 3, SysClose 3]\<rparr>) =
     (Inr (), sample_fd\<lparr>fd_num := - 1\<rparr>,
      sample_world\<lparr>fdtab := Map.empty, trace := [Deregister 10 3, Deregister 11 3, SysClose 3]\<rparr>)"
proof -
  have first: "close sample_fd sample_world =
     (Inr (), sample_fd\<lparr>fd_num := - 1\<rparr>,
      sample_world\<lparr>fdtab := Map.empty, trace := [Deregister 10 3, Deregister 11 3, SysClose 3]\<rparr>)"
    by (simp add: close_def sample_fd_def sample_world_def deregister_def sys_close_def
        lookup_fd_def CheckSystemCall_def)
  from close_idempotent [OF first] first show ?thesis
    by simp
qed

text \<open>
  C5, as the claim states it, fails after a first \<open>close()\<close> that threw: with the handle no
  longer open in the kernel, \<open>::close\<close> fails, \<open>fd_\<close> keeps its value, and the second
  \<open>close()\<close> deregisters both multiplexers again, calls \<open>::close\<close> again and throws again.
\<close>

theorem close_twice_after_failure:
  "close sample_fd sample_gone_world =
     (Inl (SystemCallError ''close''), sample_fd,
      sample_gone_world\<lparr>trace := [Deregister 10 3, Deregister 11 3, SysClose 3]\<rparr>)
   \<and> close sample_fd
       (sample_gone_world\<lparr>trace := [Deregister 10 3, Deregister 11 3, SysClose 3]\<rparr>) =
     (Inl (SystemCallError ''close''), sample_fd,
      sample_gone_world\<lparr>trace := [Deregister 10 3, Deregister 11 3, SysClose 3,
        Deregister 10 3, Deregister 11 3, SysClose 3]\<rparr>)"
  by (simp add: close_def deregister_def sys_close_def lookup_fd_def CheckSystemCall_def
      sample_fd_def sample_gone_world_def sample_world_def)

lemma to_int64_to_uint64: "0 \<le> v \<Longrightarrow> v < 2 ^ 63 \<Longrightarrow> to_int64 (to_uint64 v) = v"
  by (simp add: to_int64_def to_uint64_def)

text \<open>
  C6: on a descriptor whose handle is a regular file (contents \<open>c\<close>, offset \<open>off\<close>, both within
  \<open>off_t\<close>), \<open>filesize()\<close> returns the length of the contents and leaves the descriptor and
  the world, the file's offset included, exactly as they were: \<open>curr_offset()\<close> gives \<open>off\<close>
  before and after.
\<close>

theorem filesize_restores_offset:
  assumes "lookup_fd w (fd_num d) = Some (RegFile c off)"
    and "int off < 2 ^ 63" and "int (length c) < 2 ^ 63"
  shows "filesize d w = (Inr (int (length c)), d, w)
    \<and> curr_offset d w = (Inr (int off), d, w)"
proof -
  have cur: "curr_offset d w = (Inr (int off), d, w)"
    using assms
    by (simp add: curr_offset_def seek_def sys_lseek_def seek_target_def SEEK_SET_def SEEK_CUR_def SEEK_END_def
        CheckSystemCall_def to_uint64_def fdtab_same)
  have nonneg: "0 \<le> fd_num d"
    using assms(1) by (auto simp: lookup_fd_def split: if_splits)
  define w2 where "w2 = w\<lparr>fdtab := (fdtab w)(fd_num d \<mapsto> RegFile c (length c))\<rparr>"
  have end_seek: "seek d w 0 SEEK_END = (Inr (int (length c)), d, w2)"
    using assms
    by (simp add: seek_def sys_lseek_def seek_target_def SEEK_SET_def SEEK_CUR_def SEEK_END_def
        CheckSystemCall_def to_uint64_def w2_def)
  have look2: "lookup_fd w2 (fd_num d) = Some (RegFile c (length c))"
    using nonneg by (simp add: lookup_fd_def w2_def)
  have "(fdtab w2)(fd_num d \<mapsto> RegFile c off) = fdtab w"
    using assms(1) by (auto simp: w2_def lookup_fd_def split: if_splits)
  then have restore: "seek d w2 (to_int64 (int off)) SEEK_SET = (Inr (int off), d, w)"
    using assms(2) look2
    by (simp add: seek_def sys_lseek_def seek_target_def SEEK_SET_def SEEK_CUR_def SEEK_END_def
        CheckSystemCall_def to_uint64_def to_int64_def w2_def)
  from cur end_seek restore show ?thesis
    by (simp add: filesize_def)
qed

theorem filesize_restores_offset_witness:
  "lookup_fd sample_file_world (fd_num sample_fd) = Some (RegFile ''hello'' 2)
   \<and> filesize sample_fd sample_file_world = (Inr 5, sample_fd, sample_file_world)
   \<and> curr_offset sample_fd sample_file_world = (Inr 2, sample_fd, sample_file_world)"
proof -
  have open3: "lookup_fd sample_file_world (fd_num sample_fd) = Some (RegFile ''hello'' 2)"
    by (simp add: lookup_fd_def sample_file_world_def sample_fd_def)
  from filesize_restores_offset [OF open3] open3 show ?thesis
    by simp
qed










lemma read_error:
  assumes "read BUFFER_SIZE d w limit = (Inl e, d', w')"
  shows "e = SystemCallError ''read''"
  using assms
  by (auto simp: read_def CheckSystemCall_def Let_def split: prod.splits if_splits)

lemma read_exactly_loop_throws:
  assumes "lookup_fd w (fd_num d) = Some r" and "length ret + length (avail r) < len"
  shows "\<exists>d' w'. read_exactly_loop BUFFER_SIZE d w len False ret =
    (Inl (RuntimeError ''read_exactly: reached EOF before reaching target''), d', w')"
  using assms
proof (induction "length (avail r)" arbitrary: d w r ret rule: less_induct)
  case less
  define n where "n = granted (plan w) (min (min BUFFER_SIZE (len - length ret)) (length (avail r)))"
  define d1 where "d1 = (if n = 0 then set_eof True d else d)\<lparr>read_count := read_count d + 1\<rparr>"
  define w1 where "w1 = w\<lparr>fdtab := (fdtab w)(fd_num d \<mapsto> consume n r), plan := tl (plan w)\<rparr>"
  have rd: "read BUFFER_SIZE d w (len - length ret) = (Inr (take n (avail r)), d1, w1)"
    using read_open [OF less.prems(1) n_def] by (simp add: d1_def w1_def)
  have n_le: "n \<le> length (avail r)"
    using granted_le [of "plan w" "min (min BUFFER_SIZE (len - length ret)) (length (avail r))"]
    by (simp add: n_def)
  have short: "length ret < len"
    using less.prems(2) by simp
  show ?case
  proof (cases "eof d1")
    case True
    with rd short show ?thesis
      by (subst read_exactly_loop.simps) simp
  next
    case False
    then have pos: "n \<noteq> 0"
      by (auto simp: d1_def set_eof_def split: if_splits)
    have step: "read_exactly_loop BUFFER_SIZE d w len False ret =
        read_exactly_loop BUFFER_SIZE d1 w1 len False (ret @ take n (avail r))"
      using rd short False by (subst read_exactly_loop.simps) simp
    have look: "lookup_fd w1 (fd_num d1) = Some (consume n r)"
      using lookup_fd_nonneg [OF less.prems(1)]
      by (simp add: lookup_fd_def d1_def w1_def set_eof_def)
    have smaller: "length (avail (consume n r)) < length (avail r)"
      using pos n_le by (simp add: avail_consume)
    have rest: "length (ret @ take n (avail r)) + length (avail (consume n r)) < len"
      using less.prems(2) n_le by (simp add: avail_consume)
    from less.hyps [OF smaller look rest] show ?thesis
      unfolding step .
  qed
qed

lemma read_exactly_loop_partial:
  assumes "lookup_fd w (fd_num d) = Some r" and "\<not> eof d" and "0 < BUFFER_SIZE"
    and "length ret + length (avail r) < len"
  shows "\<exists>d' w'. read_exactly_loop BUFFER_SIZE d w len True ret = (Inr (ret @ avail r), d', w')
    \<and> eof d'"
  using assms
proof (induction "length (avail r)" arbitrary: d w r ret rule: less_induct)
  case less
  define n where "n = granted (plan w) (min (min BUFFER_SIZE (len - length ret)) (length (avail r)))"
  define d1 where "d1 = (if n = 0 then set_eof True d else d)\<lparr>read_count := read_count d + 1\<rparr>"
  define w1 where "w1 = w\<lparr>fdtab := (fdtab w)(fd_num d \<mapsto> consume n r), plan := tl (plan w)\<rparr>"
  have rd: "read BUFFER_SIZE d w (len - length ret) = (Inr (take n (avail r)), d1, w1)"
    using read_open [OF less.prems(1) n_def] by (simp add: d1_def w1_def)
  have n_le: "n \<le> length (avail r)"
    using granted_le [of "plan w" "min (min BUFFER_SIZE (len - length ret)) (length (avail r))"]
    by (simp add: n_def)
  have short: "length ret < len"
    using less.prems(4) by simp
  have n_zero: "n = 0 \<longleftrightarrow> avail r = []"
    using less.prems(3) short by (auto simp: n_def granted_zero min_def)
  show ?case
  proof (cases "n = 0")
    case True
    then have "eof d1" by (simp add: d1_def set_eof_def)
    with rd short True n_zero show ?thesis
      by (subst read_exactly_loop.simps) simp
  next
    case False
    then have neof: "\<not> eof d1"
      using less.prems(2) by (simp add: d1_def)
    have step: "read_exactly_loop BUFFER_SIZE d w len True ret =
        read_exactly_loop BUFFER_SIZE d1 w1 len True (ret @ take n (avail r))"
      using rd short neof by (subst read_exactly_loop.simps) simp
    have look: "lookup_fd w1 (fd_num d1) = Some (consume n r)"
      using lookup_fd_nonneg [OF less.prems(1)]
      by (simp add: lookup_fd_def d1_def w1_def set_eof_def)
    have smaller: "length (avail (consume n r)) < length (avail r)"
      using False n_le by (simp add: avail_consume)
    have rest: "length (ret @ take n (avail r)) + length (avail (consume n r)) < len"
      using less.prems(4) n_le by (simp add: avail_consume)
    from less.hyps [OF smaller look neof less.prems(3) rest] show ?thesis
      unfolding step by (simp add: avail_consume)
  qed
qed

lemma read_exactly_loop_length:
  assumes "read_exactly_loop BUFFER_SIZE d w len fail_silently ret = (res, d', w')"
    and "length ret \<le> len"
  shows "(\<forall>s. res = Inr s \<longrightarrow> length s \<le> len \<and> (\<not> fail_silently \<longrightarrow> length s = len))
    \<and> (\<forall>m. res \<noteq> Inl (Abort m))"
  using assms
proof (induction "len - length ret" arbitrary: d w ret rule: less_induct)
  case less
  show ?case
  proof (cases "length ret < len")
    case False
    with less.prems have "length ret = len" by simp
    with less.prems(1) show ?thesis
      by (subst (asm) read_exactly_loop.simps) auto
  next
    case True
    obtain r1 d1 w1 where rd: "read BUFFER_SIZE d w (len - length ret) = (r1, d1, w1)"
      by (cases "read BUFFER_SIZE d w (len - length ret)")
    show ?thesis
    proof (cases r1)
      case (Inl e)
      with rd read_error [of BUFFER_SIZE d w "len - length ret" e d1 w1]
      have "e = SystemCallError ''read''" by simp
      with less.prems(1) True rd Inl show ?thesis
        by (subst (asm) read_exactly_loop.simps) auto
    next
      case (Inr s)
      with rd read_result [of BUFFER_SIZE d w "len - length ret" s d1 w1]
      have s_le: "length s \<le> len - length ret" and eof1: "eof d1 \<longleftrightarrow> eof d \<or> s = []"
        by simp_all
      show ?thesis
      proof (cases "eof d1")
        case True
        with less.prems(1) \<open>length ret < len\<close> rd Inr s_le show ?thesis
          by (subst (asm) read_exactly_loop.simps) (auto split: if_splits)
      next
        case False
        with eof1 have "s \<noteq> []" by simp
        then have smaller: "len - length (ret @ s) < len - length ret"
          using True by (cases s) auto
        have le: "length (ret @ s) \<le> len"
          using s_le True by simp
        have "read_exactly_loop BUFFER_SIZE d1 w1 len fail_silently (ret @ s) = (res, d', w')"
          using less.prems(1) True rd Inr False
          by (subst (asm) read_exactly_loop.simps) simp
        from less.hyps [OF smaller this le] show ?thesis .
      qed
    qed
  qed
qed

text \<open>
  C2, as the code has it: against a source that has fewer bytes left than requested,
  \<open>read_exactly\<close> without \<open>fail_silently\<close> throws the "reached EOF" \<open>runtime_error\<close>; with
  \<open>fail_silently\<close>, on a descriptor whose end-of-file flag is clear at the call (and a buffer
  of positive capacity), it returns exactly the bytes that were left. Whenever
  \<open>read_exactly\<close> returns without \<open>fail_silently\<close>, the result has the requested length; and
  the \<open>assert\<close> never fails.
\<close>

theorem read_exactly_short_source:
  assumes "lookup_fd w (fd_num d) = Some r" and "length (avail r) < n"
  shows "(\<exists>d' w'. read_exactly BUFFER_SIZE d w n False =
        (Inl (RuntimeError ''read_exactly: reached EOF before reaching target''), d', w'))
    \<and> (\<not> eof d \<and> 0 < BUFFER_SIZE \<longrightarrow>
        (\<exists>d' w'. read_exactly BUFFER_SIZE d w n True = (Inr (avail r), d', w')))
    \<and> (\<forall>d0 w0 m s d' w'. read_exactly BUFFER_SIZE d0 w0 m False = (Inr s, d', w') \<longrightarrow>
          length s = m)
    \<and> (\<forall>d0 w0 m fs msg d' w'. read_exactly BUFFER_SIZE d0 w0 m fs \<noteq> (Inl (Abort msg), d', w'))"
proof (intro conjI allI impI)
  show "\<exists>d' w'. read_exactly BUFFER_SIZE d w n False =
        (Inl (RuntimeError ''read_exactly: reached EOF before reaching target''), d', w')"
    using read_exactly_loop_throws [OF assms(1), of "[]" n BUFFER_SIZE] assms(2)
    by (simp add: read_exactly_def)
next
  assume "\<not> eof d \<and> 0 < BUFFER_SIZE"
  then show "\<exists>d' w'. read_exactly BUFFER_SIZE d w n True = (Inr (avail r), d', w')"
    using read_exactly_loop_partial [OF assms(1), of BUFFER_SIZE "[]" n] assms(2)
    by (auto simp: read_exactly_def)
next
  fix d0 w0 m s d' w'
  assume "read_exactly BUFFER_SIZE d0 w0 m False = (Inr s, d', w')"
  then show "length s = m"
    using read_exactly_loop_length [of BUFFER_SIZE d0 w0 m False "[]" "Inr s" d' w']
    by (simp add: read_exactly_def)
next
  fix d0 w0 m fs msg d' w'
  show "read_exactly BUFFER_SIZE d0 w0 m fs \<noteq> (Inl (Abort msg), d', w')"
    using read_exactly_loop_length [of BUFFER_SIZE d0 w0 m fs "[]" "Inl (Abort msg)" d' w']
    by (auto simp: read_exactly_def)
qed

theorem read_exactly_short_source_witness:
  "lookup_fd sample_world (fd_num sample_fd) = Some (Fifo ''ab'')
   \<and> length (avail (Fifo ''ab'')) < 3
   \<and> fst (read_exactly 1024 sample_fd sample_world 3 False) =
       Inl (RuntimeError ''read_exactly: reached EOF before reaching target'')
   \<and> fst (read_exactly 1024 sample_fd sample_world 3 True) = Inr ''ab''"
proof -
  have open3: "lookup_fd sample_world (fd_num sample_fd) = Some (Fifo ''ab'')"
    by (simp add: lookup_fd_def sample_world_def sample_fd_def)
  have short: "length (avail (Fifo ''ab'')) < 3"
    by simp
  have fresh: "\<not> eof sample_fd \<and> (0::nat) < 1024"
    by (simp add: sample_fd_def)
  note inst = read_exactly_short_source [OF open3 short, of 1024]
  from inst have "\<exists>d' w'. read_exactly 1024 sample_fd sample_world 3 False =
        (Inl (RuntimeError ''read_exactly: reached EOF before reaching target''), d', w')"
    by (rule conjunct1)
  moreover from inst [THEN conjunct2, THEN conjunct1, rule_format, OF fresh]
  have "\<exists>d' w'. read_exactly 1024 sample_fd sample_world 3 True = (Inr ''ab'', d', w')"
    by simp
  ultimately show ?thesis
    using open3 by auto
qed

text \<open>
  C2, as the claim states it, fails: after \<open>read(0)\<close> on the sample descriptor its
  end-of-file flag is set although the two bytes of the source are still there; three bytes
  are then requested with \<open>fail_silently\<close>, the kernel hands over one byte in the first
  read, and \<open>read_exactly\<close> returns after that read with one byte, not two.
\<close>

theorem read_exactly_stale_eof:
  "fst (read 1024 sample_fd sample_stale_world 0) = Inr []
   \<and> eof stale_fd
   \<and> lookup_fd stale_world (fd_num stale_fd) = Some (Fifo ''ab'')
   \<and> length (avail (Fifo ''ab'')) = 2
   \<and> fst (read_exactly 1024 stale_fd stale_world 3 True) = Inr ''a''"
  by (simp add: stale_fd_def stale_world_def sample_stale_world_def read_exactly_def
      read_exactly_loop.simps read_def sys_read_def lookup_fd_def
      granted_def planned_def CheckSystemCall_def register_read_def set_eof_def
      sample_world_def sample_fd_def)




lemma notify_epollers_trace:
  "notify_epollers items d w = w\<lparr>trace := trace w @ deregistrations items d w\<rparr>"
proof (induction items arbitrary: w)
  case Nil
  show ?case by (simp add: deregistrations_def)
next
  case (Cons item items)
  show ?case
    by (simp add: Cons.IH deregistrations_def deregister_def)
qed

lemma count_deregistrations:
  "count_list (deregistrations items d w) (Deregister e (fd_num d)) =
     (if e \<in> set (live w) then count_list (map snd items) e else 0)"
  by (induction items) (auto simp: deregistrations_def)

lemma close_valid:
  assumes "0 \<le> fd_num d"
  shows "close d w =
    (case lookup_fd w (fd_num d) of
       None \<Rightarrow> (Inl (SystemCallError ''close''), d,
                 w\<lparr>trace := trace w @ deregistrations (epollers d) d w @ [SysClose (fd_num d)]\<rparr>)
     | Some r \<Rightarrow> (Inr (), d\<lparr>fd_num := - 1\<rparr>,
                 w\<lparr>fdtab := (fdtab w)(fd_num d := None),
                   trace := trace w @ deregistrations (epollers d) d w @ [SysClose (fd_num d)]\<rparr>))"
  using assms
  by (auto simp: close_def notify_epollers_trace sys_close_def lookup_fd_def CheckSystemCall_def
      split: option.splits)

lemma close_trace:
  assumes "0 \<le> fd_num d"
  shows "trace (snd (snd (close d w))) =
    trace w @ deregistrations (epollers d) d w @ [SysClose (fd_num d)]"
  using assms by (simp add: close_valid split: option.splits)

lemma destructor_trace:
  assumes "0 \<le> fd_num d"
  shows "\<exists>tl. trace (destructor d w) =
    trace w @ deregistrations (epollers d) d w @ [SysClose (fd_num d)] @ tl
    \<and> (\<forall>ev \<in> set tl. \<exists>e. ev = PrintException ''FileDescriptor'' e)"
  using assms by (auto simp: destructor_def close_valid split: option.splits)

lemma detach_epoller_result:
  "fst (detach_epoller d w k) = d\<lparr>epollers := filter (\<lambda>item. fst item \<noteq> k) (epollers d)\<rparr>
   \<and> live (snd (detach_epoller d w k)) = live w"
  by (simp add: detach_epoller_def Let_def)

text \<open>
  C4: \<open>close()\<close> on a descriptor with a valid handle calls \<open>deregister\<close> once for every entry
  of the back-reference map whose multiplexer is alive, in the order of the map, and only
  then calls \<open>::close\<close>; when that succeeds the handle is gone and \<open>fd_\<close> is \<open>-1\<close>. So every
  multiplexer is deregistered as often as it is in the map if it is alive, and not at all
  otherwise. After \<open>detach_epoller(k)\<close>, neither a later \<open>close()\<close> nor the destructor
  deregisters the multiplexer that was attached under \<open>k\<close> (and under no other key).
\<close>

theorem close_deregisters_then_releases:
  assumes "0 \<le> fd_num d"
  shows "(\<exists>r d' w'. close d w = (r, d', w')
        \<and> trace w' = trace w @ deregistrations (epollers d) d w @ [SysClose (fd_num d)]
        \<and> (case r of Inr _ \<Rightarrow> fd_num d' = - 1 \<and> lookup_fd w' (fd_num d) = None
            | Inl _ \<Rightarrow> d' = d))
    \<and> (\<forall>e. count_list (deregistrations (epollers d) d w) (Deregister e (fd_num d)) =
          (if e \<in> set (live w) then count_list (map snd (epollers d)) e else 0))
    \<and> (\<forall>k e. map_of (epollers d) k = Some e
          \<and> e \<notin> snd ` set (filter (\<lambda>item. fst item \<noteq> k) (epollers d)) \<longrightarrow>
          (case detach_epoller d w k of (d1, w1) \<Rightarrow>
             Deregister e (fd_num d) \<notin>
               set (drop (length (trace w1)) (trace (snd (snd (close d1 w1)))))
             \<and> Deregister e (fd_num d) \<notin>
               set (drop (length (trace w1)) (trace (destructor d1 w1)))))"
proof (intro conjI allI impI)
  show "\<exists>r d' w'. close d w = (r, d', w')
        \<and> trace w' = trace w @ deregistrations (epollers d) d w @ [SysClose (fd_num d)]
        \<and> (case r of Inr _ \<Rightarrow> fd_num d' = - 1 \<and> lookup_fd w' (fd_num d) = None
            | Inl _ \<Rightarrow> d' = d)"
    using assms by (auto simp: close_valid lookup_fd_def split: option.splits)
next
  fix e
  show "count_list (deregistrations (epollers d) d w) (Deregister e (fd_num d)) =
          (if e \<in> set (live w) then count_list (map snd (epollers d)) e else 0)"
    by (rule count_deregistrations)
next
  fix k e
  assume a: "map_of (epollers d) k = Some e
    \<and> e \<notin> snd ` set (filter (\<lambda>item. fst item \<noteq> k) (epollers d))"
  obtain d1 w1 where dt: "detach_epoller d w k = (d1, w1)"
    by (cases "detach_epoller d w k")
  with detach_epoller_result [of d w k]
  have d1: "d1 = d\<lparr>epollers := filter (\<lambda>item. fst item \<noteq> k) (epollers d)\<rparr>"
    and w1: "live w1 = live w"
    by simp_all
  from d1 assms have v1: "0 \<le> fd_num d1" by simp
  from a d1 have none: "Deregister e (fd_num d) \<notin> set (deregistrations (epollers d1) d1 w1)"
    by (auto simp: deregistrations_def)
  from close_trace [OF v1, of w1] none d1
  have c: "Deregister e (fd_num d) \<notin>
      set (drop (length (trace w1)) (trace (snd (snd (close d1 w1)))))"
    by simp
  from destructor_trace [OF v1, of w1] obtain tl where
    t: "trace (destructor d1 w1) =
        trace w1 @ deregistrations (epollers d1) d1 w1 @ [SysClose (fd_num d1)] @ tl"
    and tl: "\<forall>ev \<in> set tl. \<exists>e. ev = PrintException ''FileDescriptor'' e"
    by blast
  from tl have "Deregister e (fd_num d) \<notin> set tl" by auto
  with t none have "Deregister e (fd_num d) \<notin>
      set (drop (length (trace w1)) (trace (destructor d1 w1)))"
    by simp
  with c dt show "case detach_epoller d w k of (d1, w1) \<Rightarrow>
             Deregister e (fd_num d) \<notin>
               set (drop (length (trace w1)) (trace (snd (snd (close d1 w1)))))
             \<and> Deregister e (fd_num d) \<notin>
               set (drop (length (trace w1)) (trace (destructor d1 w1)))"
    by simp
qed

theorem close_deregisters_then_releases_witness:
  "0 \<le> fd_num sample_fd
   \<and> trace (snd (snd (close sample_fd sample_world))) =
       [Deregister 10 3, Deregister 11 3, SysClose 3]
   \<and> fd_num (fst (snd (close sample_fd sample_world))) = - 1
   \<and> map_of (epollers sample_fd) 5 = Some 10
   \<and> Deregister 10 3 \<notin> set (trace (snd (snd (close
         (fst (detach_epoller sample_fd sample_world 5))
         (snd (detach_epoller sample_fd sample_world 5))))))
   \<and> Deregister 10 3 \<notin> set (trace (destructor
         (fst (detach_epoller sample_fd sample_world 5))
         (snd (detach_epoller sample_fd sample_world 5))))"
proof -
  have valid: "0 \<le> fd_num sample_fd"
    by (simp add: sample_fd_def)
  have det: "detach_epoller sample_fd sample_world 5 =
      (sample_fd\<lparr>epollers := [(7, 11)]\<rparr>, sample_world)"
    by (simp add: detach_epoller_def sample_fd_def)
  have att: "map_of (epollers sample_fd) 5 = Some 10"
    by (simp add: sample_fd_def)
  have fresh: "10 \<notin> snd ` set (filter (\<lambda>item. fst item \<noteq> 5) (epollers sample_fd))"
    by (simp add: sample_fd_def)
  have first: "close sample_fd sample_world =
     (Inr (), sample_fd\<lparr>fd_num := - 1\<rparr>,
      sample_world\<lparr>fdtab := Map.empty, trace := [Deregister 10 3, Deregister 11 3, SysClose 3]\<rparr>)"
    by (simp add: close_def sample_fd_def sample_world_def deregister_def sys_close_def
        lookup_fd_def CheckSystemCall_def)
  note later = close_deregisters_then_releases [OF valid, of sample_world,
      THEN conjunct2, THEN conjunct2, rule_format, of 5 10]
  from later [OF conjI [OF att fresh]]
  have "Deregister 10 (fd_num sample_fd) \<notin>
           set (drop (length (trace sample_world))
             (trace (snd (snd (close (sample_fd\<lparr>epollers := [(7, 11)]\<rparr>) sample_world)))))
         \<and> Deregister 10 (fd_num sample_fd) \<notin>
           set (drop (length (trace sample_world))
             (trace (destructor (sample_fd\<lparr>epollers := [(7, 11)]\<rparr>) sample_world)))"
    by (simp add: det)
  moreover have "trace sample_world = []" "fd_num sample_fd = 3"
    by (simp_all add: sample_world_def sample_fd_def)
  ultimately show ?thesis
    using valid att by (simp add: det first)
qed

section \<open>Properties of run\_servers\<close>

lemma digit_char_inj: "n < 10 \<Longrightarrow> m < 10 \<Longrightarrow> digit_char n = digit_char m \<Longrightarrow> n = m"
proof -
  have d: "distinct ''0123456789''" by simp
  assume "n < 10" "m < 10" "digit_char n = digit_char m"
  then show "n = m"
    using nth_eq_iff_index_eq [OF d, of n m] by (simp add: digit_char_def)
qed

lemma digit_char_not_minus: "n < 10 \<Longrightarrow> digit_char n \<noteq> CHR ''-''"
proof -
  assume "n < 10"
  then have "digit_char n \<in> set ''0123456789''"
    unfolding digit_char_def by (intro nth_mem) simp
  then show ?thesis by auto
qed

lemma digits_nonempty: "digits n \<noteq> []"
  by (subst digits.simps) simp

lemma hd_digits: "hd (digits n) \<noteq> CHR ''-''"
proof (induction n rule: digits.induct)
  case (1 n)
  show ?case
  proof (cases "n < 10")
    case True
    then show ?thesis
      by (subst digits.simps) (simp add: digit_char_not_minus)
  next
    case False
    with 1 digits_nonempty [of "n div 10"] show ?thesis
      by (subst digits.simps) simp
  qed
qed

lemma digits_inj: "digits n = digits m \<Longrightarrow> n = m"
proof (induction n arbitrary: m rule: digits.induct)
  case (1 n)
  show ?case
  proof (cases "n < 10")
    case True
    note n = this
    show ?thesis
    proof (cases "m < 10")
      case True
      with n "1.prems" have "digit_char n = digit_char m"
        by (subst (asm) digits.simps, subst (asm) (2) digits.simps) simp
      with n True show ?thesis by (rule digit_char_inj)
    next
      case False
      with n "1.prems" digits_nonempty [of "m div 10"] show ?thesis
        by (subst (asm) digits.simps, subst (asm) (2) digits.simps) simp
    qed
  next
    case False
    note n = this
    show ?thesis
    proof (cases "m < 10")
      case True
      with n "1.prems" digits_nonempty [of "n div 10"] show ?thesis
        by (subst (asm) digits.simps, subst (asm) (2) digits.simps) simp
    next
      case False
      with n "1.prems" have eq: "digits (n div 10) = digits (m div 10)"
        and last: "digit_char (n mod 10) = digit_char (m mod 10)"
        by (subst (asm) digits.simps, subst (asm) (2) digits.simps, simp)+
      from "1.IH" [OF n eq] have "n div 10 = m div 10" .
      moreover from last have "n mod 10 = m mod 10"
        by (intro digit_char_inj) simp_all
      ultimately show ?thesis
        by (metis div_mult_mod_eq)
    qed
  qed
qed

lemma to_string_inj: "to_string i = to_string j \<Longrightarrow> i = j"
proof -
  assume eq: "to_string i = to_string j"
  consider "i < 0" "j < 0" | "i < 0" "0 \<le> j" | "0 \<le> i" "j < 0" | "0 \<le> i" "0 \<le> j"
    by linarith
  then show "i = j"
  proof cases
    case 1
    with eq have "digits (nat (- i)) = digits (nat (- j))"
      by (simp add: to_string_def)
    then have "nat (- i) = nat (- j)" by (rule digits_inj)
    with 1 show ?thesis by simp
  next
    case 2
    with eq have "CHR ''-'' # digits (nat (- i)) = digits (nat j)"
      by (simp add: to_string_def)
    then have "hd (digits (nat j)) = CHR ''-''"
      by (metis list.sel(1))
    with hd_digits show ?thesis by blast
  next
    case 3
    with eq have "digits (nat i) = CHR ''-'' # digits (nat (- j))"
      by (simp add: to_string_def)
    then have "hd (digits (nat i)) = CHR ''-''"
      by simp
    with hd_digits show ?thesis by blast
  next
    case 4
    with eq have "digits (nat i) = digits (nat j)"
      by (simp add: to_string_def)
    then have "nat i = nat j" by (rule digits_inj)
    with 4 show ?thesis by simp
  qed
qed

lemma path_join_inject: "path_join a b = path_join a c \<longleftrightarrow> b = c"
  by (simp add: path_join_def)

lemma log_reporter_not_media: "log_reporter g \<noteq> ws_media_server g"
  by (simp add: log_reporter_def ws_media_server_def path_join_inject)

lemma run_log_reporters_frame:
  assumes "run_log_reporters env g stems st = (r, st')"
  shows "server_id st' = server_id st \<and> media_servers g st' = media_servers g st
    \<and> printed st' = printed st"
  using assms
proof (induction stems arbitrary: st)
  case Nil
  then show ?case by simp
next
  case (Cons log_stem rest)
  show ?case
  proof (cases "spawnable env (log_reporter g)")
    case False
    with Cons.prems show ?thesis
      by (simp add: run_as_child_def Let_def)
  next
    case True
    define st1 where "st1 = st\<lparr>proc_manager := proc_manager st @
        [\<lparr>program = log_reporter g,
          arguments = [log_reporter g, yaml_config g,
            path_join (log_dir (config g)) (log_stem @ ''.conf''),
            path_join (log_dir (config g))
              (log_stem @ ''.'' @ to_string (server_id st) @ ''.log'')],
          on_error = LogReporterError log_stem\<rparr>]\<rparr>"
    from Cons.prems True have "run_log_reporters env g rest st1 = (r, st')"
      by (simp add: run_as_child_def Let_def st1_def)
    from Cons.IH [OF this] show ?thesis
      by (simp add: st1_def media_servers_def log_reporter_not_media)
  qed
qed

lemma enumerate_snoc:
  "enumerate (Suc 0) (eids @ [eid]) = enumerate (Suc 0) eids @ [(Suc (length eids), eid)]"
  by (simp add: enumerate_append_eq)

lemma run_media_servers_numbered:
  assumes "run_media_servers env g influxdb_client expt_id n st = (r, st')"
    and "server_id st = int (length eids)"
    and "map arguments (media_servers g st) = map (media_args g) (enumerate 1 eids)"
  shows "\<exists>j\<le>n. map arguments (media_servers g st') =
        map (media_args g) (enumerate 1 (eids @ replicate j expt_id))
      \<and> printed st' = printed st
      \<and> (r = Inr () \<longrightarrow> j = n \<and> server_id st' = int (length eids + n))"
  using assms
proof (induction n arbitrary: st eids)
  case 0
  then show ?case by auto
next
  case (Suc n)
  show ?case
  proof (cases "server_id st = 2147483647")
    case True
    with Suc.prems have "st' = st" by simp
    with Suc.prems(3) show ?thesis
      by (intro exI [of _ 0]) (use Suc.prems(1) True in auto)
  next
    case False
    note no_overflow = this
    define st1 where "st1 = st\<lparr>server_id := server_id st + 1\<rparr>"
    show ?thesis
    proof (cases "spawnable env (ws_media_server g)")
      case False
      with Suc.prems(1) no_overflow have "st' = st1" "r \<noteq> Inr ()"
        by (auto simp: run_as_child_def Let_def st1_def)
      with Suc.prems(3) show ?thesis
        by (intro exI [of _ 0]) (simp add: st1_def media_servers_def)
    next
      case True
      define st2 where "st2 = st1\<lparr>proc_manager := proc_manager st1 @
        [\<lparr>program = ws_media_server g,
          arguments = [ws_media_server g, yaml_config g,
                       to_string (server_id st1), to_string expt_id],
          on_error = MediaServerError (server_id st1)\<rparr>]\<rparr>"
      have sid2: "server_id st2 = int (length (eids @ [expt_id]))"
        using Suc.prems(2) by (simp add: st2_def st1_def)
      have suc: "int (length eids) + 1 = int (Suc (length eids))"
        by simp
      have "map arguments (media_servers g st2) =
          map arguments (media_servers g st) @ [media_args g (Suc (length eids), expt_id)]"
        using Suc.prems(2)
        by (simp add: st2_def st1_def media_servers_def media_args_def suc del: of_nat_Suc)
      then have media2: "map arguments (media_servers g st2) =
          map (media_args g) (enumerate 1 (eids @ [expt_id]))"
        using Suc.prems(3) by (simp add: enumerate_snoc)
      obtain r3 st3 where logs: "(if influxdb_client then run_log_reporters env g log_stems st2
                       else (Inr (), st2)) = (r3, st3)"
        by (cases "if influxdb_client then run_log_reporters env g log_stems st2
                       else (Inr (), st2)")
      then have frame: "server_id st3 = server_id st2 \<and> media_servers g st3 = media_servers g st2
          \<and> printed st3 = printed st2"
        using run_log_reporters_frame [of env g log_stems st2 r3 st3]
        by (auto split: if_splits)
      have step: "run_media_servers env g influxdb_client expt_id (Suc n) st =
          (case r3 of Inl e \<Rightarrow> (Inl e, st3)
           | Inr _ \<Rightarrow> run_media_servers env g influxdb_client expt_id n st3)"
        using no_overflow True logs
        by (cases influxdb_client; cases r3)
          (auto simp: run_as_child_def Let_def st1_def st2_def)
      show ?thesis
      proof (cases r3)
        case (Inl e)
        with step Suc.prems(1) have "st' = st3" "r \<noteq> Inr ()" by auto
        with frame media2 show ?thesis
          by (intro exI [of _ 1]) (simp add: st2_def st1_def)
      next
        case (Inr u)
        with step Suc.prems(1)
        have rec: "run_media_servers env g influxdb_client expt_id n st3 = (r, st')"
          by simp
        from frame sid2 media2 have "server_id st3 = int (length (eids @ [expt_id]))"
          and "map arguments (media_servers g st3) =
            map (media_args g) (enumerate 1 (eids @ [expt_id]))"
          by simp_all
        from Suc.IH [OF rec this] obtain j where j: "j \<le> n"
          "map arguments (media_servers g st') =
            map (media_args g) (enumerate 1 ((eids @ [expt_id]) @ replicate j expt_id))"
          "printed st' = printed st3"
          "r = Inr () \<longrightarrow> j = n \<and> server_id st' = int (length (eids @ [expt_id]) + n)"
          by blast
        then show ?thesis
          using frame
          by (intro exI [of _ "Suc j"]) (simp add: st2_def st1_def replicate_app_Cons_same)
      qed
    qed
  qed
qed

lemma worker_ids_Cons:
  assumes "run_program env (expt_json g) [expt_json g, fingerprint expt] = Inr json_str"
  shows "worker_ids env g (expt # rest) k =
    replicate (num_servers expt) (fst (retrieve_expt_id (database env k) json_str))
      @ worker_ids env g rest (Suc k)"
  using assms by (simp add: worker_ids_def)

lemma worker_ids_stop:
  assumes "run_program env (expt_json g) [expt_json g, fingerprint expt] = Inl e"
  shows "worker_ids env g (expt # rest) k = []"
  using assms by (simp add: worker_ids_def)

lemma run_experiments_numbered:
  assumes "run_experiments env g influxdb_client expts k st = (r, st')"
    and "server_id st = int (length eids)"
    and "map arguments (media_servers g st) = map (media_args g) (enumerate 1 eids)"
  shows "\<exists>new. set new \<subseteq> set (lookups env g expts k)
      \<and> map arguments (media_servers g st') = map (media_args g) (enumerate 1 (eids @ new))
      \<and> new = take (length new) (worker_ids env g expts k)
      \<and> (r = Inr () \<longrightarrow> new = worker_ids env g expts k)"
  using assms
proof (induction expts arbitrary: k st eids)
  case Nil
  then show ?case by (intro exI [of _ "[]"]) (auto simp: worker_ids_def)
next
  case (Cons expt rest)
  show ?case
  proof (cases "run_program env (expt_json g) [expt_json g, fingerprint expt]")
    case (Inl e)
    with Cons.prems worker_ids_stop [OF Inl, of rest k] show ?thesis
      by (intro exI [of _ "[]"]) auto
  next
    case (Inr json_str)
    define expt_id where "expt_id = fst (retrieve_expt_id (database env k) json_str)"
    define st1 where
      "st1 = st\<lparr>printed := printed st @ snd (retrieve_expt_id (database env k) json_str)\<rparr>"
    obtain r2 st2 where
      servers: "run_media_servers env g influxdb_client expt_id (num_servers expt) st1 = (r2, st2)"
      by (cases "run_media_servers env g influxdb_client expt_id (num_servers expt) st1")
    have "server_id st1 = int (length eids)"
      and "map arguments (media_servers g st1) = map (media_args g) (enumerate 1 eids)"
      using Cons.prems(2,3) by (simp_all add: st1_def media_servers_def)
    from run_media_servers_numbered [OF servers this] obtain j where
      j: "map arguments (media_servers g st2) =
            map (media_args g) (enumerate 1 (eids @ replicate j expt_id))"
        "r2 = Inr () \<longrightarrow> j = num_servers expt
          \<and> server_id st2 = int (length eids + num_servers expt)"
      and j_le: "j \<le> num_servers expt"
      by blast
    have look: "lookups env g (expt # rest) k = expt_id # lookups env g rest (Suc k)"
      using Inr by (simp add: expt_id_def)
    have ids: "worker_ids env g (expt # rest) k =
        replicate (num_servers expt) expt_id @ worker_ids env g rest (Suc k)"
      using worker_ids_Cons [OF Inr] by (simp add: expt_id_def)
    have step: "run_experiments env g influxdb_client (expt # rest) k st =
        (case r2 of Inl e \<Rightarrow> (Inl e, st2)
         | Inr _ \<Rightarrow> run_experiments env g influxdb_client rest (Suc k) st2)"
      using Inr servers
      by (cases "retrieve_expt_id (database env k) json_str") (simp add: expt_id_def st1_def)
    show ?thesis
    proof (cases r2)
      case (Inl e)
      with step Cons.prems(1) have st': "st' = st2" and failed: "r \<noteq> Inr ()" by auto
      have pre: "replicate j expt_id =
          take (length (replicate j expt_id)) (worker_ids env g (expt # rest) k)"
        using j_le by (simp add: ids min_def)
      show ?thesis
      proof (intro exI [of _ "replicate j expt_id"] conjI)
        show "set (replicate j expt_id) \<subseteq> set (lookups env g (expt # rest) k)"
          unfolding look by auto
        show "map arguments (media_servers g st') =
            map (media_args g) (enumerate 1 (eids @ replicate j expt_id))"
          unfolding st' by (rule j(1))
        show "replicate j expt_id =
            take (length (replicate j expt_id)) (worker_ids env g (expt # rest) k)"
          by (rule pre)
        show "r = Inr () \<longrightarrow> replicate j expt_id = worker_ids env g (expt # rest) k"
          using failed by simp
      qed
    next
      case (Inr u)
      with step Cons.prems(1)
      have rec: "run_experiments env g influxdb_client rest (Suc k) st2 = (r, st')"
        by simp
      from Inr j have full: "j = num_servers expt"
        by simp
      from Inr j have "server_id st2 = int (length (eids @ replicate j expt_id))"
        by simp
      from Cons.IH [OF rec this j(1)] obtain new where new:
        "set new \<subseteq> set (lookups env g rest (Suc k))"
        "map arguments (media_servers g st') =
          map (media_args g) (enumerate 1 ((eids @ replicate j expt_id) @ new))"
        "new = take (length new) (worker_ids env g rest (Suc k))"
        "r = Inr () \<longrightarrow> new = worker_ids env g rest (Suc k)"
        by blast
      have "take (length (replicate j expt_id @ new)) (worker_ids env g (expt # rest) k) =
          replicate j expt_id @ take (length new) (worker_ids env g rest (Suc k))"
        by (simp add: ids full)
      with new(3) have pre: "replicate j expt_id @ new =
          take (length (replicate j expt_id @ new)) (worker_ids env g (expt # rest) k)"
        by simp
      have all: "r = Inr () \<longrightarrow>
          replicate j expt_id @ new = worker_ids env g (expt # rest) k"
        using new(4) by (simp add: ids full)
      show ?thesis
      proof (intro exI [of _ "replicate j expt_id @ new"] conjI)
        show "set (replicate j expt_id @ new) \<subseteq> set (lookups env g (expt # rest) k)"
          unfolding look using new(1) by auto
        show "map arguments (media_servers g st') =
            map (media_args g) (enumerate 1 (eids @ replicate j expt_id @ new))"
          using new(2) by simp
        show "replicate j expt_id @ new =
            take (length (replicate j expt_id @ new)) (worker_ids env g (expt # rest) k)"
          by (rule pre)
        show "r = Inr () \<longrightarrow>
            replicate j expt_id @ new = worker_ids env g (expt # rest) k"
          by (rule all)
      qed
    qed
  qed
qed

lemma single_field_eq: "single_field r \<Longrightarrow> r = [[r ! 0 ! 0]]"
proof -
  assume "single_field r"
  then have len: "length r = 1" "length (r ! 0) = 1"
    by (simp_all add: single_field_def)
  then obtain row where r: "r = [row]"
    by (cases r) auto
  with len(2) obtain x where "row = [x]"
    by (cases row) auto
  with r show ?thesis by simp
qed

text \<open>
  C9: \<open>retrieve_expt_id\<close> returns a value on every input; an exception thrown anywhere in
  its \<open>try\<close> block is caught, printed, and \<open>-1\<close> is returned. The hash computation, the
  connection, the \<open>select_id\<close> statement and the \<open>insert_json\<close> statement, when they fail,
  throw inside that block. A non-negative result is the single field of the single row that
  \<open>select_id\<close> found or that \<open>insert_json\<close> returned (and then committed), and nothing was
  printed.
\<close>

theorem retrieve_expt_id_catches:
  "(\<forall>e. retrieve_try db json_str = Inl e \<longrightarrow>
        retrieve_expt_id db json_str = (- 1, [PrintException ''retrieve_expt_id'' e]))
   \<and> (\<forall>e. sha256 db json_str = Inl e \<longrightarrow> retrieve_try db json_str = Inl e)
   \<and> (\<forall>hash e. sha256 db json_str = Inr hash \<and> connect db = Some e \<longrightarrow>
        retrieve_try db json_str = Inl e)
   \<and> (\<forall>hash e. sha256 db json_str = Inr hash \<and> connect db = None \<and> create_table db = None
        \<and> prepare db = None \<and> select_id db hash = Inl e \<longrightarrow>
        retrieve_try db json_str = Inl e)
   \<and> (\<forall>hash r e. sha256 db json_str = Inr hash \<and> connect db = None \<and> create_table db = None
        \<and> prepare db = None \<and> select_id db hash = Inr r \<and> \<not> single_field r
        \<and> insert_json db hash json_str = Inl e \<longrightarrow>
        retrieve_try db json_str = Inl e)
   \<and> (0 \<le> fst (retrieve_expt_id db json_str) \<longrightarrow>
        snd (retrieve_expt_id db json_str) = []
        \<and> (\<exists>hash. sha256 db json_str = Inr hash
             \<and> (select_id db hash = Inr [[Inr (fst (retrieve_expt_id db json_str))]]
                 \<or> insert_json db hash json_str = Inr [[Inr (fst (retrieve_expt_id db json_str))]]
                   \<and> commit db = None)))"
proof (intro conjI allI impI)
  fix e
  assume "retrieve_try db json_str = Inl e"
  then show "retrieve_expt_id db json_str = (- 1, [PrintException ''retrieve_expt_id'' e])"
    by (simp add: retrieve_expt_id_def)
next
  fix e
  assume "sha256 db json_str = Inl e"
  then show "retrieve_try db json_str = Inl e"
    by (simp add: retrieve_try_def)
next
  fix hash e
  assume "sha256 db json_str = Inr hash \<and> connect db = Some e"
  then show "retrieve_try db json_str = Inl e"
    by (simp add: retrieve_try_def)
next
  fix hash e
  assume "sha256 db json_str = Inr hash \<and> connect db = None \<and> create_table db = None
        \<and> prepare db = None \<and> select_id db hash = Inl e"
  then show "retrieve_try db json_str = Inl e"
    by (simp add: retrieve_try_def)
next
  fix hash r e
  assume "sha256 db json_str = Inr hash \<and> connect db = None \<and> create_table db = None
        \<and> prepare db = None \<and> select_id db hash = Inr r \<and> \<not> single_field r
        \<and> insert_json db hash json_str = Inl e"
  then show "retrieve_try db json_str = Inl e"
    by (simp add: retrieve_try_def)
next
  assume nonneg: "0 \<le> fst (retrieve_expt_id db json_str)"
  then obtain v where ok: "retrieve_try db json_str = Inr (Some v)"
    by (auto simp: retrieve_expt_id_def split: sum.splits option.splits)
  then show "snd (retrieve_expt_id db json_str) = []"
    by (simp add: retrieve_expt_id_def)
next
  assume nonneg: "0 \<le> fst (retrieve_expt_id db json_str)"
  then obtain v where ok: "retrieve_try db json_str = Inr (Some v)"
    by (auto simp: retrieve_expt_id_def split: sum.splits option.splits)
  then have res: "retrieve_expt_id db json_str = (v, [])"
    by (simp add: retrieve_expt_id_def)
  from ok obtain hash where hash: "sha256 db json_str = Inr hash"
    by (auto simp: retrieve_try_def split: sum.splits)
  from ok hash have "select_id db hash = Inr [[Inr v]]
      \<or> insert_json db hash json_str = Inr [[Inr v]] \<and> commit db = None"
    by (auto simp: retrieve_try_def split: sum.splits option.splits if_splits
        dest: single_field_eq)
  with res hash show "\<exists>hash. sha256 db json_str = Inr hash
             \<and> (select_id db hash = Inr [[Inr (fst (retrieve_expt_id db json_str))]]
                 \<or> insert_json db hash json_str = Inr [[Inr (fst (retrieve_expt_id db json_str))]]
                   \<and> commit db = None)"
    by simp
qed

theorem retrieve_expt_id_catches_witness:
  "sha256 sample_db_down ''{}'' = Inr ''5F''
   \<and> connect sample_db_down = Some (External ''broken_connection'')
   \<and> retrieve_expt_id sample_db_down ''{}'' =
       (- 1, [PrintException ''retrieve_expt_id'' (External ''broken_connection'')])
   \<and> retrieve_expt_id sample_db ''{}'' = (7, [])
   \<and> select_id sample_db ''5F'' = Inr [[Inr 7]]"
proof -
  have down: "sha256 sample_db_down ''{}'' = Inr ''5F''
      \<and> connect sample_db_down = Some (External ''broken_connection'')"
    by (simp add: sample_db_down_def sample_db_def sha256_def)
  note inst = retrieve_expt_id_catches [of sample_db_down "''{}''"]
  from inst [THEN conjunct2, THEN conjunct2, THEN conjunct1, rule_format, OF down]
  have "retrieve_try sample_db_down ''{}'' = Inl (External ''broken_connection'')" .
  from inst [THEN conjunct1, rule_format, OF this]
  have "retrieve_expt_id sample_db_down ''{}'' =
       (- 1, [PrintException ''retrieve_expt_id'' (External ''broken_connection'')])" .
  moreover have "retrieve_expt_id sample_db ''{}'' = (7, [])"
    "select_id sample_db ''5F'' = Inr [[Inr 7]]"
    by (simp_all add: retrieve_expt_id_def retrieve_try_def sha256_def sample_db_def
        single_field_def)
  ultimately show ?thesis
    using down by simp
qed

lemma third_arguments:
  "map (\<lambda>a. a ! 2) (map (media_args g) (enumerate 1 eids)) =
     map (\<lambda>sid. to_string (int sid)) [1..<Suc (length eids)]"
proof -
  have "map (\<lambda>a. a ! 2) (map (media_args g) xs) =
      map (\<lambda>sid. to_string (int sid)) (map fst xs)" for xs
    by (simp add: media_args_def comp_def)
  then show ?thesis
    by (simp only: map_fst_enumerate plus_1_eq_Suc)
qed



text \<open>
  C7, as the code has it: whatever happens later in the run, the media servers registered
  with the process manager were each invoked with exactly four arguments: the media
  server's own path, the configuration path, the decimal rendering of the server id, which
  is the position in spawn order counted from 1 (so the ids are positive and the third
  arguments pairwise distinct), and the decimal rendering of what \<open>retrieve_expt_id\<close>
  returned for the server's own experiment, which is \<open>-1\<close> when the lookup failed: the
  experiment ids of the servers, in spawn order, are the first ones of \<open>worker_ids\<close>, and
  all of them when \<open>main\<close> returns.
\<close>

theorem media_server_invocations:
  assumes "length argv = 2" and "load_file env (fs_absolute env (argv ! 1)) = Inr cfg"
    and "g = \<lparr>yaml_config = fs_absolute env (argv ! 1), config = cfg,
               src_path = exe_src_path env\<rparr>"
  shows "\<exists>eids. map arguments (media_servers g (snd (main env argv))) =
        map (media_args g) (enumerate 1 eids)
      \<and> set eids \<subseteq> set (lookups env g (experiments cfg) 0)
      \<and> map (\<lambda>a. a ! 2) (map arguments (media_servers g (snd (main env argv)))) =
          map (\<lambda>sid. to_string (int sid)) [1..<Suc (length eids)]
      \<and> distinct (map (\<lambda>a. a ! 2) (map arguments (media_servers g (snd (main env argv)))))
      \<and> eids = take (length eids) (worker_ids env g (experiments cfg) 0)
      \<and> (\<forall>status. fst (main env argv) = Inr status \<longrightarrow>
            eids = worker_ids env g (experiments cfg) 0)"
proof -
  have start: "server_id initial = int (length ([] :: int list))"
    "map arguments (media_servers g initial) = map (media_args g) (enumerate 1 [])"
    by (simp_all add: initial_def media_servers_def)
  have "\<exists>eids. map arguments (media_servers g (snd (main env argv))) =
        map (media_args g) (enumerate 1 eids)
      \<and> set eids \<subseteq> set (lookups env g (experiments cfg) 0)
      \<and> eids = take (length eids) (worker_ids env g (experiments cfg) 0)
      \<and> (\<forall>status. fst (main env argv) = Inr status \<longrightarrow>
            eids = worker_ids env g (experiments cfg) 0)"
  proof (cases "enable_logging cfg \<and> influx_connect env \<noteq> None")
    case True
    with assms have "snd (main env argv) = initial" and "\<forall>status. fst (main env argv) \<noteq> Inr status"
      by (auto simp: main_def)
    with start(2) show ?thesis
      by (intro exI [of _ "[]"]) simp
  next
    case False
    obtain r st where run:
      "run_experiments env g (enable_logging cfg) (experiments cfg) 0 initial = (r, st)"
      by (cases "run_experiments env g (enable_logging cfg) (experiments cfg) 0 initial")
    with assms False have "snd (main env argv) = st"
      and "\<forall>status. fst (main env argv) = Inr status \<longrightarrow> r = Inr ()"
      by (cases r; auto simp: main_def)+
    with run_experiments_numbered [OF run start] show ?thesis
      by auto
  qed
  then obtain eids where eids: "map arguments (media_servers g (snd (main env argv))) =
        map (media_args g) (enumerate 1 eids)"
      "set eids \<subseteq> set (lookups env g (experiments cfg) 0)"
      "eids = take (length eids) (worker_ids env g (experiments cfg) 0)"
      "\<forall>status. fst (main env argv) = Inr status \<longrightarrow>
            eids = worker_ids env g (experiments cfg) 0"
    by blast
  have third: "map (\<lambda>a. a ! 2) (map arguments (media_servers g (snd (main env argv)))) =
          map (\<lambda>sid. to_string (int sid)) [1..<Suc (length eids)]"
    unfolding eids(1) by (rule third_arguments)
  have "inj (\<lambda>sid. to_string (int sid))"
    by (rule injI) (auto dest: to_string_inj)
  then have "distinct (map (\<lambda>sid. to_string (int sid)) [1..<Suc (length eids)])"
    by (simp add: distinct_map inj_on_def)
  with third eids show ?thesis
    by (intro exI [of _ eids]) simp
qed

theorem media_server_invocations_witness:
  "length sample_argv = 2
   \<and> load_file sample_env (fs_absolute sample_env (sample_argv ! 1)) = Inr sample_config
   \<and> fst (main sample_env sample_argv) = Inr 0
   \<and> worker_ids sample_env sample_globals (experiments sample_config) 0 = [7, 7]
   \<and> map arguments (media_servers sample_globals (snd (main sample_env sample_argv))) =
       map (media_args sample_globals) (enumerate 1 [7, 7])
   \<and> distinct (map (\<lambda>a. a ! 2)
        (map arguments (media_servers sample_globals (snd (main sample_env sample_argv)))))"
proof -
  have len: "length sample_argv = 2"
    by (simp add: sample_argv_def)
  have load: "load_file sample_env (fs_absolute sample_env (sample_argv ! 1)) = Inr sample_config"
    by (simp add: sample_env_def)
  have g: "sample_globals = \<lparr>yaml_config = fs_absolute sample_env (sample_argv ! 1),
      config = sample_config, src_path = exe_src_path sample_env\<rparr>"
    by (simp add: sample_globals_def sample_env_def sample_argv_def)
  have ids: "worker_ids sample_env sample_globals (experiments sample_config) 0 = [7, 7]"
    by (simp add: worker_ids_def sample_config_def sample_env_def retrieve_expt_id_def
        retrieve_try_def sha256_def sample_db_def single_field_def numeral_2_eq_2)
  have ret: "fst (main sample_env sample_argv) = Inr 0"
    by (simp add: main_def sample_env_def sample_db_def sample_config_def sample_argv_def
        initial_def retrieve_expt_id_def retrieve_try_def sha256_def run_as_child_def
        single_field_def numeral_2_eq_2 Let_def)
  from media_server_invocations [OF len load g] obtain eids where
    eids: "map arguments (media_servers sample_globals (snd (main sample_env sample_argv))) =
        map (media_args sample_globals) (enumerate 1 eids)"
      "distinct (map (\<lambda>a. a ! 2)
        (map arguments (media_servers sample_globals (snd (main sample_env sample_argv)))))"
      "\<forall>status. fst (main sample_env sample_argv) = Inr status \<longrightarrow>
            eids = worker_ids sample_env sample_globals (experiments sample_config) 0"
    by blast
  from eids(3) ret ids have "eids = [7, 7]"
    by simp
  with eids(1,2) len load ret ids show ?thesis
    by simp
qed

text \<open>
  C7, as the claim states it, fails: when the database connection fails,
  \<open>retrieve_expt_id\<close> returns \<open>-1\<close> and \<open>main\<close> spawns the media servers of that experiment
  with the experiment id \<open>-1\<close>.
\<close>

theorem media_server_negative_expt_id:
  "map arguments (proc_manager (snd (main sample_env_db_down sample_argv))) =
     [[''/puffer/src/media-server/ws_media_server'', ''/etc/cfg.yml'', ''1'', ''-1''],
      [''/puffer/src/media-server/ws_media_server'', ''/etc/cfg.yml'', ''2'', ''-1'']]"
  by (simp add: main_def sample_env_db_down_def sample_env_def sample_db_down_def sample_db_def
      sample_config_def sample_argv_def initial_def retrieve_expt_id_def retrieve_try_def
      sha256_def run_as_child_def ws_media_server_def expt_json_def path_join_def
      to_string_def digit_char_def numeral_2_eq_2)




end
